theory Spec2Isabelle
  imports Main "HOL-Library.AList" "HOL-Library.Multiset"
begin

section \<open>Data model\<close>

text \<open>
  The aspect-ratio bucket manager of \<^verbatim>\<open>helpers/multiaspect/bucket.py\<close> and the
  storage backend it drives.  Image references and bucket keys are Python strings.  The
  bucket index is a Python dict from bucket key to a list of image references; a dict
  keeps insertion order, so it is an association list whose keys are pairwise distinct
  (\<open>wf_index\<close>).  The discovered set \<^verbatim>\<open>instance_images_path\<close> is a Python set.
\<close>

type_synonym image_ref = string
type_synonym bucket_key = string
type_synonym bucket_index = "(bucket_key \<times> image_ref list) list"

datatype error =
    AttributeError string
  | KeyError string
  | TypeError string
  | NotFound string
  | JSONDecodeError
  | BackendError string

definition wf_index :: "bucket_index \<Rightarrow> bool" where
  "wf_index idx = distinct (map fst idx)"

subsection \<open>Storage backend\<close>

text \<open>
  Modelled from the spec: the abstract class \<^verbatim>\<open>BaseDataBackend\<close>
  (\<^verbatim>\<open>helpers/data_backend/base.py\<close>) is not among the sources, so the state of a
  backend follows the interface table of the specification: a flat key namespace of
  stored objects, \<^verbatim>\<open>read\<close> failures that are raised to the caller, and the answer of
  \<^verbatim>\<open>list_files\<close>: a sequence of (directory, subdirectories, files) triples as
  \<^verbatim>\<open>_discover_new_files\<close> unpacks it, or a failure of the backend, which the manager
  does not catch.
\<close>

record backend =
  objects :: "string \<rightharpoonup> string"
  read_fault :: "string \<rightharpoonup> error"
  listing :: "error + (string \<times> string list \<times> string list) list"

definition backend_exists :: "backend \<Rightarrow> string \<Rightarrow> bool" where
  "backend_exists b k = (objects b k \<noteq> None)"

definition backend_read :: "backend \<Rightarrow> string \<Rightarrow> error + string" where
  "backend_read b k =
     (case read_fault b k of
        Some e \<Rightarrow> Inl e
      | None \<Rightarrow> (case objects b k of None \<Rightarrow> Inl (NotFound k) | Some d \<Rightarrow> Inr d))"

definition backend_write :: "backend \<Rightarrow> string \<Rightarrow> string \<Rightarrow> backend" where
  "backend_write b k d = b\<lparr>objects := (objects b)(k \<mapsto> d)\<rparr>"

definition backend_delete :: "backend \<Rightarrow> string \<Rightarrow> error + backend" where
  "backend_delete b k =
     (case objects b k of
        None \<Rightarrow> Inl (NotFound k)
      | Some d \<Rightarrow> Inr (b\<lparr>objects := (objects b)(k := None)\<rparr>))"

definition list_files :: "backend \<Rightarrow> error + (string \<times> string list \<times> string list) list" where
  "list_files b = listing b"

text \<open>
  Python resolves a method by its attribute name at the call.  The one-argument
  procedures a backend offers are \<^verbatim>\<open>delete\<close> and \<^verbatim>\<open>create_directory\<close>
  (\<^verbatim>\<open>S3DataBackend\<close> in \<^verbatim>\<open>aws.py\<close>, and the interface table); calling any other
  name raises \<^verbatim>\<open>AttributeError\<close>.
\<close>

definition backend_procedures :: "(string \<times> (backend \<Rightarrow> string \<Rightarrow> error + backend)) list" where
  "backend_procedures =
     [(''delete'', backend_delete),
      (''create_directory'', \<lambda>b directory_path. Inr b)]"

definition call_procedure :: "string \<Rightarrow> backend \<Rightarrow> string \<Rightarrow> error + backend" where
  "call_procedure name b arg =
     (case map_of backend_procedures name of
        None \<Rightarrow> Inl (AttributeError name)
      | Some m \<Rightarrow> m b arg)"

subsection \<open>Cache document and library functions\<close>

text \<open>
  \<^verbatim>\<open>cache_data\<close> is the dict \<^verbatim>\<open>_save_cache\<close> hands to \<^verbatim>\<open>json.dumps\<close>.
\<close>

record cache_data =
  doc_indices :: bucket_index
  doc_paths :: "image_ref list"

text \<open>
  What \<^verbatim>\<open>json.loads\<close> returns is any JSON value: \<^verbatim>\<open>None\<close>, a bool, a number, a
  string, a list or a dict.  \<^verbatim>\<open>_load_cache\<close> treats every number alike, so numbers
  are integers here.
\<close>

datatype json =
    JNull
  | JBool bool
  | JNumber int
  | JString string
  | JArray "json list"
  | JObject "(string \<times> json) list"

text \<open>
  \<^verbatim>\<open>value.get(key, dflt)\<close>: only a dict has the method, and a key that is there
  gives its value whatever that is, also \<^verbatim>\<open>None\<close>.
\<close>

definition py_get :: "json \<Rightarrow> string \<Rightarrow> json \<Rightarrow> error + json" where
  "py_get v key dflt =
     (case v of
        JObject entries \<Rightarrow> Inr (case map_of entries key of None \<Rightarrow> dflt | Some x \<Rightarrow> x)
      | _ \<Rightarrow> Inl (AttributeError ''get''))"

text \<open>
  \<^verbatim>\<open>set(value)\<close> iterates the value and hashes each element: \<^verbatim>\<open>None\<close>, a bool and
  a number are not iterable, a string yields its characters, a dict its keys, and a
  list or a dict as an element is unhashable.  The result lists the elements of the
  set.
\<close>

fun py_iter :: "json \<Rightarrow> error + json list" where
  "py_iter (JString str) = Inr (map (\<lambda>c. JString [c]) str)"
| "py_iter (JArray xs) = Inr xs"
| "py_iter (JObject entries) = Inr (map (\<lambda>(k, x). JString k) entries)"
| "py_iter v = Inl (TypeError ''object is not iterable'')"

fun hashable :: "json \<Rightarrow> bool" where
  "hashable (JArray xs) = False"
| "hashable (JObject entries) = False"
| "hashable v = True"

definition py_set :: "json \<Rightarrow> error + json list" where
  "py_set v =
     (case py_iter v of
        Inl e \<Rightarrow> Inl e
      | Inr xs \<Rightarrow> if list_all hashable xs then Inr xs else Inl (TypeError ''unhashable type''))"

text \<open>
  The manager state below holds a bucket index and a set of strings.  These are the
  JSON values that are one: a dict from bucket keys to lists of strings, and elements
  that are all strings.
\<close>

fun as_string :: "json \<Rightarrow> string option" where
  "as_string (JString str) = Some str"
| "as_string v = None"

definition as_strings :: "json list \<Rightarrow> string list option" where
  "as_strings xs = those (map as_string xs)"

fun as_bucket :: "string \<times> json \<Rightarrow> (bucket_key \<times> image_ref list) option" where
  "as_bucket (k, JArray xs) = map_option (Pair k) (as_strings xs)"
| "as_bucket (k, v) = None"

fun as_index :: "json \<Rightarrow> bucket_index option" where
  "as_index (JObject entries) = those (map as_bucket entries)"
| "as_index v = None"

text \<open>
  The functions the manager takes from outside this module: the JSON codec, the order
  in which a Python set is iterated, and the bucket key the assigner computes for a
  file of a backend (\<open>None\<close> when it cannot read the file).
\<close>

record env =
  json_loads :: "string \<Rightarrow> error + json"
  json_dumps :: "cache_data \<Rightarrow> string"
  set_iter :: "image_ref set \<Rightarrow> image_ref list"
  bucket_of :: "backend \<Rightarrow> image_ref \<Rightarrow> bucket_key option"

subsection \<open>The manager\<close>

record BucketManager =
  data_backend :: backend
  batch_size :: int
  cache_file :: string
  aspect_ratio_bucket_indices :: bucket_index
  instance_images_path :: "image_ref set"

section \<open>Operations\<close>

subsection \<open>Cache load and save\<close>

text \<open>
  \<^verbatim>\<open>_load_cache\<close> either raises, or returns with a bucket index and a set of strings
  in the manager, or returns with values in the manager that are not a bucket index and
  a set of strings (a document such as \<^verbatim>\<open>{"aspect_ratio_bucket_indices": 5}\<close> loads
  without an error); the last outcome keeps the two values as they were loaded.
\<close>

datatype load_result =
    Raised error
  | Loaded BucketManager
  | LoadedUntyped json "json list"

definition load_cache :: "env \<Rightarrow> BucketManager \<Rightarrow> load_result" where
  "load_cache E s =
     (if backend_exists (data_backend s) (cache_file s) then
        (let cache_data =
               (case backend_read (data_backend s) (cache_file s) of
                  Inl e \<Rightarrow> JObject []
                | Inr cache_data_raw \<Rightarrow>
                    (case json_loads E cache_data_raw of
                       Inl e \<Rightarrow> JObject []
                     | Inr v \<Rightarrow> v))
         in case py_get cache_data ''aspect_ratio_bucket_indices'' (JObject []) of
              Inl e \<Rightarrow> Raised e
            | Inr i \<Rightarrow>
                (case py_get cache_data ''instance_images_path'' (JArray []) of
                   Inl e \<Rightarrow> Raised e
                 | Inr p \<Rightarrow>
                     (case py_set p of
                        Inl e \<Rightarrow> Raised e
                      | Inr elements \<Rightarrow>
                          (case (as_index i, as_strings elements) of
                             (Some idx, Some paths) \<Rightarrow>
                               Loaded (s\<lparr>aspect_ratio_bucket_indices := idx,
                                         instance_images_path := set paths\<rparr>)
                           | _ \<Rightarrow> LoadedUntyped i elements))))
      else Loaded s)"

definition init :: "env \<Rightarrow> backend \<Rightarrow> string \<Rightarrow> int \<Rightarrow> load_result" where
  "init E b cf bs =
     load_cache E \<lparr>data_backend = b, batch_size = bs, cache_file = cf,
                   aspect_ratio_bucket_indices = [], instance_images_path = {}\<rparr>"

definition enforce_step :: "int \<Rightarrow> bucket_key \<times> image_ref list \<Rightarrow> bucket_index \<Rightarrow> bucket_index" where
  "enforce_step bs item d =
     (if int (length (snd item)) < bs then AList.delete (fst item) d else d)"

definition enforce_min_bucket_size :: "BucketManager \<Rightarrow> BucketManager" where
  "enforce_min_bucket_size s =
     s\<lparr>aspect_ratio_bucket_indices :=
         fold (enforce_step (batch_size s)) (aspect_ratio_bucket_indices s)
              (aspect_ratio_bucket_indices s)\<rparr>"

text \<open>
  Image references are strings already, so the \<^verbatim>\<open>str(path)\<close> of \<^verbatim>\<open>_save_cache\<close>
  leaves them as they are.  Log messages are not part of the state.
\<close>

definition cache_document :: "env \<Rightarrow> BucketManager \<Rightarrow> cache_data" where
  "cache_document E s =
     \<lparr>doc_indices = aspect_ratio_bucket_indices s,
      doc_paths = set_iter E (instance_images_path s)\<rparr>"

definition save_cache :: "env \<Rightarrow> BucketManager \<Rightarrow> BucketManager" where
  "save_cache E s =
     (let s1 = enforce_min_bucket_size s
      in s1\<lparr>data_backend :=
              backend_write (data_backend s1) (cache_file s1)
                (json_dumps E (cache_document E s1))\<rparr>)"

subsection \<open>Repair operations\<close>

definition remove_image :: "image_ref \<Rightarrow> bucket_key \<Rightarrow> BucketManager \<Rightarrow> error + BucketManager" where
  "remove_image image_path bucket s =
     (case map_of (aspect_ratio_bucket_indices s) bucket of
        None \<Rightarrow> Inl (KeyError bucket)
      | Some images \<Rightarrow>
          Inr (if image_path \<in> set images
               then s\<lparr>aspect_ratio_bucket_indices :=
                        AList.update bucket (remove1 image_path images)
                          (aspect_ratio_bucket_indices s)\<rparr>
               else s))"

definition handle_incorrect_bucket ::
  "image_ref \<Rightarrow> bucket_key \<Rightarrow> bucket_key \<Rightarrow> BucketManager \<Rightarrow> error + BucketManager" where
  "handle_incorrect_bucket image_path bucket actual_bucket s =
     (case remove_image image_path bucket s of
        Inl e \<Rightarrow> Inl e
      | Inr s1 \<Rightarrow>
          (case map_of (aspect_ratio_bucket_indices s1) actual_bucket of
             Some images \<Rightarrow>
               Inr (s1\<lparr>aspect_ratio_bucket_indices :=
                         AList.update actual_bucket (images @ [image_path])
                           (aspect_ratio_bucket_indices s1)\<rparr>)
           | None \<Rightarrow>
               Inr (s1\<lparr>aspect_ratio_bucket_indices :=
                         AList.update actual_bucket [image_path]
                           (aspect_ratio_bucket_indices s1)\<rparr>)))"

definition handle_small_image ::
  "image_ref \<Rightarrow> bucket_key \<Rightarrow> bool \<Rightarrow> BucketManager \<Rightarrow> error + BucketManager" where
  "handle_small_image image_path bucket delete_unwanted_images s =
     (let s1 = (if delete_unwanted_images
                then (case call_procedure ''remove'' (data_backend s) image_path of
                        Inl e \<Rightarrow> s
                      | Inr b \<Rightarrow> s\<lparr>data_backend := b\<rparr>)
                else s)
      in remove_image image_path bucket s1)"

subsection \<open>Discovery and bucket computation\<close>

definition all_image_files :: "(string \<times> string list \<times> string list) list \<Rightarrow> image_ref list" where
  "all_image_files all_image_files_data = concat (map (\<lambda>(_, _, files). files) all_image_files_data)"

definition discover_new_files :: "BucketManager \<Rightarrow> error + image_ref list" where
  "discover_new_files s =
     (case list_files (data_backend s) of
        Inl e \<Rightarrow> Inl e
      | Inr all_image_files_data \<Rightarrow>
          Inr (filter (\<lambda>file. file \<notin> instance_images_path s)
                 (all_image_files all_image_files_data)))"

text \<open>\<^verbatim>\<open>d.setdefault(key, []).extend(value)\<close> on an insertion-ordered dict.\<close>

definition setdefault_extend :: "bucket_key \<Rightarrow> image_ref list \<Rightarrow> bucket_index \<Rightarrow> bucket_index" where
  "setdefault_extend key val d =
     AList.update key ((case map_of d key of None \<Rightarrow> [] | Some l \<Rightarrow> l) @ val) d"

text \<open>
  Modelled from the spec: \<^verbatim>\<open>MultiaspectImage.process_for_bucket\<close>
  (\<^verbatim>\<open>helpers/multiaspect/image.py\<close>) is not among the sources.  The specification
  gives it as the bucket assigner: from the backend and a file it computes the
  file's bucket key and inserts the file into the index it is given under that key; a
  file whose assignment fails is skipped and the index is returned as it was.
\<close>

definition process_for_bucket :: "env \<Rightarrow> backend \<Rightarrow> image_ref \<Rightarrow> bucket_index \<Rightarrow> bucket_index" where
  "process_for_bucket E b file idx =
     (case bucket_of E b file of
        None \<Rightarrow> idx
      | Some key \<Rightarrow> setdefault_extend key [file] idx)"

definition bucket_worker :: "env \<Rightarrow> backend \<Rightarrow> image_ref set \<Rightarrow> image_ref list \<Rightarrow> bucket_index" where
  "bucket_worker E b existing_files_set files =
     fold (\<lambda>file local_aspect_ratio_bucket_indices.
             if file \<notin> existing_files_set
             then process_for_bucket E b file local_aspect_ratio_bucket_indices
             else local_aspect_ratio_bucket_indices)
          files []"

text \<open>\<^verbatim>\<open>set().union(*lists)\<close>: with no argument at all it is a copy of the empty set.\<close>

definition set_union_all :: "image_ref list list \<Rightarrow> image_ref set" where
  "set_union_all vs = fold (\<lambda>v acc. acc \<union> set v) vs {}"

text \<open>
  \<^verbatim>\<open>numpy.array_split(ary, n)\<close>: \<open>n\<close> contiguous sections, the first
  \<open>length ary mod n\<close> of them one element longer than the others.
\<close>

fun split_sections :: "'a list \<Rightarrow> nat list \<Rightarrow> 'a list list" where
  "split_sections ary [] = []"
| "split_sections ary (m # ms) = take m ary # split_sections (drop m ary) ms"

definition array_split :: "'a list \<Rightarrow> nat \<Rightarrow> 'a list list" where
  "array_split ary n =
     (let each_section = length ary div n; extras = length ary mod n
      in split_sections ary
           (replicate extras (each_section + 1) @ replicate (n - extras) each_section))"

definition num_cpus :: nat where
  "num_cpus = 8"

text \<open>
  The aggregation loop merges the partial indices in the order in which it takes them
  from the results queue, and it takes only those that arrive while some worker is
  still alive.  \<open>sched\<close> lists the workers whose partial index the loop receives, in
  the order of receipt; a queue hands each message out once, so a schedule names no
  worker twice (\<open>valid_schedule\<close>).
\<close>

definition valid_schedule :: "nat list \<Rightarrow> bool" where
  "valid_schedule sched = distinct sched"

definition received :: "nat list \<Rightarrow> 'a list \<Rightarrow> 'a list" where
  "received sched results = map ((!) results) (filter (\<lambda>i. i < length results) sched)"

definition merge_update :: "bucket_index \<Rightarrow> bucket_index \<Rightarrow> bucket_index" where
  "merge_update partial_index d =
     fold (\<lambda>(key, val). setdefault_extend key val) partial_index d"

definition compute_aspect_ratio_bucket_indices ::
  "env \<Rightarrow> nat list \<Rightarrow> BucketManager \<Rightarrow> error + BucketManager" where
  "compute_aspect_ratio_bucket_indices E sched s =
     (case discover_new_files s of
        Inl e \<Rightarrow> Inl e
      | Inr new_files \<Rightarrow>
          if new_files = [] then Inr s
          else
            (let existing_files_set = set_union_all (map snd (aspect_ratio_bucket_indices s));
                 files_split = array_split new_files num_cpus;
                 results = map (bucket_worker E (data_backend s) existing_files_set) files_split;
                 merged = fold merge_update (received sched results)
                               (aspect_ratio_bucket_indices s)
             in Inr (save_cache E
                      (s\<lparr>aspect_ratio_bucket_indices := merged,
                         instance_images_path := instance_images_path s \<union> set new_files\<rparr>))))"

subsection \<open>Refresh\<close>

definition update_buckets_with_existing_files ::
  "env \<Rightarrow> image_ref set \<Rightarrow> BucketManager \<Rightarrow> BucketManager" where
  "update_buckets_with_existing_files E existing_files s =
     save_cache E
       (s\<lparr>aspect_ratio_bucket_indices :=
            fold (\<lambda>(bucket, images). AList.update bucket (filter (\<lambda>img. img \<in> existing_files) images))
                 (aspect_ratio_bucket_indices s) (aspect_ratio_bucket_indices s)\<rparr>)"

definition refresh_buckets :: "env \<Rightarrow> nat list \<Rightarrow> BucketManager \<Rightarrow> error + BucketManager" where
  "refresh_buckets E sched s =
     (case compute_aspect_ratio_bucket_indices E sched s of
        Inl e \<Rightarrow> Inl e
      | Inr s1 \<Rightarrow>
          (case list_files (data_backend s1) of
             Inl e \<Rightarrow> Inl e
           | Inr all_image_files_data \<Rightarrow>
               Inr (update_buckets_with_existing_files E
                      (set (all_image_files all_image_files_data)) s1)))"

subsection \<open>Sequences of operations\<close>

text \<open>
  The operations a caller can invoke on a manager, and what happens to the backend
  between two of them (\<open>BackendChange\<close>: other processes add, remove or rewrite
  files).  A run stops at the first operation that raises.
\<close>

datatype operation =
    Compute "nat list"
  | Refresh "nat list"
  | UpdateExisting "image_ref set"
  | SaveCache
  | RemoveImage image_ref bucket_key
  | HandleIncorrectBucket image_ref bucket_key bucket_key
  | HandleSmallImage image_ref bucket_key bool
  | BackendChange backend

fun apply_operation :: "env \<Rightarrow> operation \<Rightarrow> BucketManager \<Rightarrow> error + BucketManager" where
  "apply_operation E (Compute sched) s = compute_aspect_ratio_bucket_indices E sched s"
| "apply_operation E (Refresh sched) s = refresh_buckets E sched s"
| "apply_operation E (UpdateExisting existing_files) s =
     Inr (update_buckets_with_existing_files E existing_files s)"
| "apply_operation E SaveCache s = Inr (save_cache E s)"
| "apply_operation E (RemoveImage image_path bucket) s = remove_image image_path bucket s"
| "apply_operation E (HandleIncorrectBucket image_path bucket actual_bucket) s =
     handle_incorrect_bucket image_path bucket actual_bucket s"
| "apply_operation E (HandleSmallImage image_path bucket delete_unwanted_images) s =
     handle_small_image image_path bucket delete_unwanted_images s"
| "apply_operation E (BackendChange b) s = Inr (s\<lparr>data_backend := b\<rparr>)"

fun run :: "env \<Rightarrow> operation list \<Rightarrow> BucketManager \<Rightarrow> error + BucketManager" where
  "run E [] s = Inr s"
| "run E (operation # operations) s =
     (case apply_operation E operation s of
        Inl e \<Rightarrow> Inl e
      | Inr s' \<Rightarrow> run E operations s')"

section \<open>Notions used in the statements\<close>

text \<open>
  All image references of an index, bucket after bucket; an index without any
  duplicate; an index in which no image is in two buckets.
\<close>

definition all_refs :: "bucket_index \<Rightarrow> image_ref list" where
  "all_refs idx = concat (map snd idx)"

definition no_duplication :: "bucket_index \<Rightarrow> bool" where
  "no_duplication idx = distinct (all_refs idx)"

definition no_cross_bucket_duplication :: "bucket_index \<Rightarrow> bool" where
  "no_cross_bucket_duplication idx =
     (\<forall>(k, v) \<in> set idx. \<forall>(k', v') \<in> set idx. k \<noteq> k' \<longrightarrow> set v \<inter> set v' = {})"

text \<open>
  The conditions under which an operation is issued: the backend lists no file twice
  when files are discovered, the schedule of the aggregation loop is one a queue can
  produce, and an image is moved out of the bucket it is in, that is, it is in no
  bucket other than the one named as its current bucket.
\<close>

definition listing_distinct :: "BucketManager \<Rightarrow> bool" where
  "listing_distinct s =
     (case list_files (data_backend s) of
        Inl e \<Rightarrow> True
      | Inr all_image_files_data \<Rightarrow> distinct (all_image_files all_image_files_data))"

fun admissible :: "BucketManager \<Rightarrow> operation \<Rightarrow> bool" where
  "admissible s (Compute sched) = (valid_schedule sched \<and> listing_distinct s)"
| "admissible s (Refresh sched) = (valid_schedule sched \<and> listing_distinct s)"
| "admissible s (HandleIncorrectBucket image_path bucket actual_bucket) =
     (\<forall>(k, v) \<in> set (aspect_ratio_bucket_indices s). k \<noteq> bucket \<longrightarrow> image_path \<notin> set v)"
| "admissible s _ = True"

fun admissible_run :: "env \<Rightarrow> operation list \<Rightarrow> BucketManager \<Rightarrow> bool" where
  "admissible_run E [] s = True"
| "admissible_run E (operation # operations) s =
     (admissible s operation \<and>
      (case apply_operation E operation s of
         Inl e \<Rightarrow> True
       | Inr s' \<Rightarrow> admissible_run E operations s'))"

text \<open>The index after stale entries are filtered out and small buckets are dropped.\<close>

definition refreshed_index :: "int \<Rightarrow> image_ref set \<Rightarrow> bucket_index \<Rightarrow> bucket_index" where
  "refreshed_index bs existing_files idx =
     filter (\<lambda>(k, v). \<not> int (length v) < bs)
       (map (\<lambda>(k, v). (k, filter (\<lambda>img. img \<in> existing_files) v)) idx)"


section \<open>Concrete inputs\<close>

text \<open>
  Library functions on the inputs used below: \<^verbatim>\<open>json.loads\<close> on five documents
  (every other byte string used below is not JSON),
  \<^verbatim>\<open>json.dumps\<close> on documents whose strings need no escaping, an iteration order
  for sets of the three file names, and an assigner that puts \<^verbatim>\<open>c.png\<close> into
  bucket 16:9 and every other file into bucket 1:1.
\<close>

definition quoted :: "string \<Rightarrow> string" where
  "quoted s = CHR 0x22 # s @ [CHR 0x22]"

definition example_loads :: "string \<Rightarrow> error + json" where
  "example_loads raw =
     (if raw = ''null'' then Inr JNull
      else if raw = ''{}'' then Inr (JObject [])
      else if raw = ''{'' @ quoted ''instance_images_path'' @ '': null}''
        then Inr (JObject [(''instance_images_path'', JNull)])
      else if raw = ''{'' @ quoted ''instance_images_path'' @ '': [['' @ quoted ''a.png'' @ '']]}''
        then Inr (JObject [(''instance_images_path'', JArray [JArray [JString ''a.png'']])])
      else if raw = ''{'' @ quoted ''aspect_ratio_bucket_indices'' @ '': {'' @ quoted ''1:1''
                      @ '': ['' @ quoted ''a.png'' @ '', '' @ quoted ''b.png'' @ '']}, ''
                      @ quoted ''instance_images_path'' @ '': ['' @ quoted ''a.png'' @ '', ''
                      @ quoted ''b.png'' @ '', '' @ quoted ''c.png'' @ '']}''
        then Inr (JObject
                   [(''aspect_ratio_bucket_indices'',
                     JObject [(''1:1'', JArray [JString ''a.png'', JString ''b.png''])]),
                    (''instance_images_path'',
                     JArray [JString ''a.png'', JString ''b.png'', JString ''c.png''])])
      else Inl JSONDecodeError)"

fun joined :: "string list \<Rightarrow> string" where
  "joined [] = []"
| "joined [x] = x"
| "joined (x # y # ys) = x @ '', '' @ joined (y # ys)"

definition example_dumps :: "cache_data \<Rightarrow> string" where
  "example_dumps d =
     ''{'' @ quoted ''aspect_ratio_bucket_indices'' @ '': {''
       @ joined (map (\<lambda>(k, v). quoted k @ '': ['' @ joined (map quoted v) @ '']'') (doc_indices d))
       @ ''}, '' @ quoted ''instance_images_path'' @ '': [''
       @ joined (map quoted (doc_paths d)) @ '']}''"

definition example_env :: env where
  "example_env =
     \<lparr>json_loads = example_loads,
      json_dumps = example_dumps,
      set_iter = (\<lambda>S. filter (\<lambda>f. f \<in> S) [''a.png'', ''b.png'', ''c.png'']),
      bucket_of = (\<lambda>b file. if file = ''c.png'' then Some ''16:9'' else Some ''1:1'')\<rparr>"

definition example_backend :: backend where
  "example_backend =
     \<lparr>objects = Map.empty, read_fault = Map.empty,
      listing = Inr [(''data'', [], [''a.png'', ''b.png'', ''c.png''])]\<rparr>"

definition example_manager :: "int \<Rightarrow> bucket_index \<Rightarrow> image_ref set \<Rightarrow> BucketManager" where
  "example_manager bs idx paths =
     \<lparr>data_backend = example_backend, batch_size = bs, cache_file = ''cache.json'',
      aspect_ratio_bucket_indices = idx, instance_images_path = paths\<rparr>"

section \<open>Association lists as dicts\<close>

lemma keys_update_present:
  "map_of al k = Some v \<Longrightarrow> map fst (AList.update k v' al) = map fst al"
  by (auto simp: update_keys dest: map_of_SomeD intro: rev_image_eqI)


lemma delete_absent: "k \<notin> fst ` set al \<Longrightarrow> AList.delete k al = al"
  by (induction al) auto

lemma update_at_prefix:
  "k \<notin> fst ` set pre \<Longrightarrow> AList.update k v (pre @ (k, v0) # rest) = pre @ (k, v) # rest"
  by (induction pre) auto

lemma delete_at_prefix:
  "k \<notin> fst ` set pre \<Longrightarrow> k \<notin> fst ` set rest \<Longrightarrow>
   AList.delete k (pre @ (k, v0) # rest) = pre @ rest"
  by (induction pre) (auto simp: delete_absent)

lemma fold_update_suffix:
  "distinct (map fst (pre @ xs)) \<Longrightarrow>
   fold (\<lambda>(k, v). AList.update k (g v)) xs (pre @ xs) = pre @ map (\<lambda>(k, v). (k, g v)) xs"
proof (induction xs arbitrary: pre)
  case Nil
  then show ?case by simp
next
  case (Cons x xs)
  obtain k v where x: "x = (k, v)" by (cases x)
  from Cons.prems have k: "k \<notin> fst ` set pre"
    by (auto simp: x)
  from Cons.prems have d: "distinct (map fst ((pre @ [(k, g v)]) @ xs))"
    by (auto simp: x)
  have "fold (\<lambda>(k, v). AList.update k (g v)) (x # xs) (pre @ x # xs)
          = fold (\<lambda>(k, v). AList.update k (g v)) xs ((pre @ [(k, g v)]) @ xs)"
    by (simp add: x update_at_prefix [OF k])
  also have "\<dots> = (pre @ [(k, g v)]) @ map (\<lambda>(k, v). (k, g v)) xs"
    by (rule Cons.IH [OF d])
  finally show ?case by (simp add: x)
qed

lemma fold_update_map:
  "wf_index idx \<Longrightarrow>
   fold (\<lambda>(k, v). AList.update k (g v)) idx idx = map (\<lambda>(k, v). (k, g v)) idx"
  using fold_update_suffix [of "[]" idx g] by (simp add: wf_index_def)

lemma fold_enforce_suffix:
  "distinct (map fst (pre @ xs)) \<Longrightarrow>
   fold (enforce_step bs) xs (pre @ xs) = pre @ filter (\<lambda>(k, v). \<not> int (length v) < bs) xs"
proof (induction xs arbitrary: pre)
  case Nil
  then show ?case by simp
next
  case (Cons x xs)
  obtain k v where x: "x = (k, v)" by (cases x)
  from Cons.prems have k: "k \<notin> fst ` set pre" "k \<notin> fst ` set xs"
    by (auto simp: x)
  show ?case
  proof (cases "int (length v) < bs")
    case True
    from Cons.prems have d: "distinct (map fst (pre @ xs))" by simp
    show ?thesis
      using True Cons.IH [OF d] by (simp add: x enforce_step_def delete_at_prefix [OF k])
  next
    case False
    from Cons.prems have d: "distinct (map fst ((pre @ [x]) @ xs))" by simp
    show ?thesis
      using False Cons.IH [OF d] by (simp add: x enforce_step_def)
  qed
qed

lemma fold_enforce_filter:
  "wf_index idx \<Longrightarrow>
   fold (enforce_step bs) idx idx = filter (\<lambda>(k, v). \<not> int (length v) < bs) idx"
  using fold_enforce_suffix [of "[]" idx bs] by (simp add: wf_index_def)

lemma map_of_filter_distinct:
  "distinct (map fst al) \<Longrightarrow>
   map_of (filter P al) k =
     (case map_of al k of None \<Rightarrow> None | Some v \<Rightarrow> if P (k, v) then Some v else None)"
  by (induction al) (auto simp: map_of_eq_None_iff image_iff split: option.splits)

lemma keys_map_values: "map fst (map (\<lambda>(k, v). (k, g v)) al) = map fst al"
  by (induction al) auto

lemma map_of_map_values:
  "map_of (map (\<lambda>(k, v). (k, g v)) al) k = map_option g (map_of al k)"
  by (induction al) auto

lemma remove_image_result:
  "map_of (aspect_ratio_bucket_indices s) bucket = Some images \<Longrightarrow>
   remove_image image_path bucket s =
     Inr (s\<lparr>aspect_ratio_bucket_indices :=
             AList.update bucket (remove1 image_path images) (aspect_ratio_bucket_indices s)\<rparr>)"
  by (simp add: remove_image_def remove1_idem update_triv)

lemma handle_incorrect_bucket_result:
  "map_of (aspect_ratio_bucket_indices s) bucket = Some images \<Longrightarrow>
   handle_incorrect_bucket image_path bucket actual_bucket s =
     Inr (s\<lparr>aspect_ratio_bucket_indices :=
             setdefault_extend actual_bucket [image_path]
               (AList.update bucket (remove1 image_path images) (aspect_ratio_bucket_indices s))\<rparr>)"
  by (simp add: handle_incorrect_bucket_def remove_image_result setdefault_extend_def
      split: option.splits)

section \<open>Computing with no new files\<close>

text \<open>
  C8.  When \<^verbatim>\<open>_discover_new_files\<close> returns the empty list,
  \<^verbatim>\<open>compute_aspect_ratio_bucket_indices\<close> returns at once and the manager is as it
  was: the same bucket index, the same discovered set and the same backend, so nothing
  was written to the cache.
\<close>

theorem compute_without_new_files_is_noop:
  "discover_new_files s = Inr [] \<Longrightarrow> compute_aspect_ratio_bucket_indices E sched s = Inr s"
  by (simp add: compute_aspect_ratio_bucket_indices_def)

theorem compute_without_new_files_is_noop_witness:
  "discover_new_files
     (example_manager 2 [(''1:1'', [''a.png'', ''b.png''])] {''a.png'', ''b.png'', ''c.png''}) = Inr []
   \<and> compute_aspect_ratio_bucket_indices example_env [0, 1, 2]
       (example_manager 2 [(''1:1'', [''a.png'', ''b.png''])] {''a.png'', ''b.png'', ''c.png''})
     = Inr (example_manager 2 [(''1:1'', [''a.png'', ''b.png''])] {''a.png'', ''b.png'', ''c.png''})"
proof -
  have h: "discover_new_files
     (example_manager 2 [(''1:1'', [''a.png'', ''b.png''])] {''a.png'', ''b.png'', ''c.png''}) = Inr []"
    by (simp add: discover_new_files_def list_files_def example_manager_def example_backend_def
        all_image_files_def)
  show ?thesis
    using h compute_without_new_files_is_noop [OF h, of example_env "[0, 1, 2]"] by simp
qed

section \<open>Repair operations\<close>

subsection \<open>Removing an image\<close>

text \<open>
  \<^verbatim>\<open>remove_image\<close> subscripts the index with the bucket key before it looks for the
  image, so a bucket key that is not in the index raises \<^verbatim>\<open>KeyError\<close>: here the
  index has the one bucket 1:1 and the call names bucket 16:9.
\<close>

theorem remove_image_absent_bucket_counterexample:
  "remove_image ''a.png'' ''16:9'' (example_manager 1 [(''1:1'', [''a.png''])] {''a.png''})
     = Inl (KeyError ''16:9'')"
  by (simp add: remove_image_def example_manager_def)

text \<open>
  C3, amended.  For a bucket key that is in the index, \<^verbatim>\<open>remove_image\<close> never
  raises: it removes the first occurrence of the image from that bucket's list, leaves
  every other bucket, the order of the keys and the rest of the manager as they were,
  and changes nothing at all when the image is not in the list.  For a bucket key that
  is not in the index it raises \<^verbatim>\<open>KeyError\<close>.
\<close>

theorem remove_image_on_present_bucket:
  "(\<forall>images. map_of (aspect_ratio_bucket_indices s) bucket = Some images \<longrightarrow>
      (\<exists>s'. remove_image image_path bucket s = Inr s'
         \<and> s' = s\<lparr>aspect_ratio_bucket_indices := aspect_ratio_bucket_indices s'\<rparr>
         \<and> map_of (aspect_ratio_bucket_indices s')
             = (map_of (aspect_ratio_bucket_indices s))(bucket \<mapsto> remove1 image_path images)
         \<and> map fst (aspect_ratio_bucket_indices s') = map fst (aspect_ratio_bucket_indices s)
         \<and> (image_path \<notin> set images \<longrightarrow> s' = s)))
   \<and> (map_of (aspect_ratio_bucket_indices s) bucket = None \<longrightarrow>
        remove_image image_path bucket s = Inl (KeyError bucket))"
  by (auto simp: remove_image_def update_conv' remove1_idem fun_upd_idem keys_update_present)

theorem remove_image_on_present_bucket_witness:
  "map_of (aspect_ratio_bucket_indices
             (example_manager 1 [(''1:1'', [''a.png'', ''b.png'', ''a.png''])] {})) ''1:1''
     = Some [''a.png'', ''b.png'', ''a.png'']
   \<and> remove_image ''a.png'' ''1:1''
         (example_manager 1 [(''1:1'', [''a.png'', ''b.png'', ''a.png''])] {})
       = Inr (example_manager 1 [(''1:1'', [''b.png'', ''a.png''])] {})
   \<and> map_of (aspect_ratio_bucket_indices
             (example_manager 1 [(''1:1'', [''a.png'', ''b.png'', ''a.png''])] {})) ''4:3'' = None
   \<and> remove_image ''a.png'' ''4:3''
         (example_manager 1 [(''1:1'', [''a.png'', ''b.png'', ''a.png''])] {})
       = Inl (KeyError ''4:3'')"
  using remove_image_on_present_bucket
     [of "example_manager 1 [(''1:1'', [''a.png'', ''b.png'', ''a.png''])] {}" "''1:1''" "''a.png''"]
    remove_image_on_present_bucket
     [of "example_manager 1 [(''1:1'', [''a.png'', ''b.png'', ''a.png''])] {}" "''4:3''" "''a.png''"]
  by (simp add: example_manager_def remove_image_def)

subsection \<open>Moving a misclassified image\<close>



section \<open>Cache persistence\<close>

lemma save_cache_paths: "instance_images_path (save_cache E s) = instance_images_path s"
  by (simp add: save_cache_def enforce_min_bucket_size_def Let_def)

lemma save_cache_index:
  "aspect_ratio_bucket_indices (save_cache E s) =
     fold (enforce_step (batch_size s)) (aspect_ratio_bucket_indices s) (aspect_ratio_bucket_indices s)"
  by (simp add: save_cache_def enforce_min_bucket_size_def Let_def)

lemma save_cache_written:
  "cache_file s = cf \<Longrightarrow>
   objects (data_backend (save_cache E s)) cf =
     Some (json_dumps E (cache_document E (save_cache E s)))"
  by (auto simp: save_cache_def enforce_min_bucket_size_def Let_def backend_write_def
      cache_document_def)

lemma save_cache_cache_file: "cache_file (save_cache E s) = cache_file s"
  by (simp add: save_cache_def enforce_min_bucket_size_def Let_def)

lemma save_cache_batch_size: "batch_size (save_cache E s) = batch_size s"
  by (simp add: save_cache_def enforce_min_bucket_size_def Let_def)

subsection \<open>Minimum bucket size\<close>

text \<open>
  C4.  \<^verbatim>\<open>_save_cache\<close> first prunes: on an index with pairwise distinct keys (any
  Python dict), what remains are exactly the buckets with at least \<open>batch_size\<close>
  images, in their order.  A bucket with fewer images is gone from the index, a bucket
  with as many or more is kept with its list, the document written under the cache key
  is the encoding of the pruned index, and the discovered set is untouched, so the
  entries of dropped buckets that were in it stay in it.
\<close>

theorem save_cache_prunes_small_buckets:
  "wf_index (aspect_ratio_bucket_indices s) \<Longrightarrow>
     aspect_ratio_bucket_indices (save_cache E s) =
       filter (\<lambda>(bucket, images). \<not> int (length images) < batch_size s)
         (aspect_ratio_bucket_indices s)
   \<and> (\<forall>bucket images.
         map_of (aspect_ratio_bucket_indices s) bucket = Some images
         \<and> int (length images) < batch_size s \<longrightarrow>
         map_of (aspect_ratio_bucket_indices (save_cache E s)) bucket = None)
   \<and> (\<forall>bucket images.
         map_of (aspect_ratio_bucket_indices s) bucket = Some images
         \<and> batch_size s \<le> int (length images) \<longrightarrow>
         map_of (aspect_ratio_bucket_indices (save_cache E s)) bucket = Some images)
   \<and> objects (data_backend (save_cache E s)) (cache_file s) =
       Some (json_dumps E
              \<lparr>doc_indices = aspect_ratio_bucket_indices (save_cache E s),
               doc_paths = set_iter E (instance_images_path s)\<rparr>)
   \<and> instance_images_path (save_cache E s) = instance_images_path s"
proof -
  assume wf: "wf_index (aspect_ratio_bucket_indices s)"
  have idx: "aspect_ratio_bucket_indices (save_cache E s) =
       filter (\<lambda>(bucket, images). \<not> int (length images) < batch_size s)
         (aspect_ratio_bucket_indices s)"
    by (simp add: save_cache_index fold_enforce_filter [OF wf])
  have d: "distinct (map fst (aspect_ratio_bucket_indices s))"
    using wf by (simp add: wf_index_def)
  have doc: "objects (data_backend (save_cache E s)) (cache_file s) =
       Some (json_dumps E
              \<lparr>doc_indices = aspect_ratio_bucket_indices (save_cache E s),
               doc_paths = set_iter E (instance_images_path s)\<rparr>)"
    by (simp add: save_cache_written cache_document_def save_cache_paths)
  show ?thesis
    unfolding idx [symmetric]
    apply (intro conjI allI impI)
        apply (rule refl)
       apply (simp add: idx map_of_filter_distinct [OF d])
      apply (simp add: idx map_of_filter_distinct [OF d])
     apply (rule doc)
    apply (rule save_cache_paths)
    done
qed

theorem save_cache_prunes_small_buckets_witness:
  "wf_index (aspect_ratio_bucket_indices
      (example_manager 2 [(''1:1'', [''a.png'', ''b.png'']), (''16:9'', [''c.png''])]
         {''a.png'', ''b.png'', ''c.png''}))
   \<and> aspect_ratio_bucket_indices
        (save_cache example_env
          (example_manager 2 [(''1:1'', [''a.png'', ''b.png'']), (''16:9'', [''c.png''])]
             {''a.png'', ''b.png'', ''c.png''}))
       = [(''1:1'', [''a.png'', ''b.png''])]
   \<and> instance_images_path
        (save_cache example_env
          (example_manager 2 [(''1:1'', [''a.png'', ''b.png'']), (''16:9'', [''c.png''])]
             {''a.png'', ''b.png'', ''c.png''}))
       = {''a.png'', ''b.png'', ''c.png''}"
proof -
  have wf: "wf_index (aspect_ratio_bucket_indices
      (example_manager 2 [(''1:1'', [''a.png'', ''b.png'']), (''16:9'', [''c.png''])]
         {''a.png'', ''b.png'', ''c.png''}))"
    by (simp add: wf_index_def example_manager_def)
  show ?thesis
    using wf save_cache_prunes_small_buckets [OF wf, of example_env]
    by (simp add: example_manager_def)
qed

subsection \<open>Loading\<close>

lemma load_cache_absent:
  "\<not> backend_exists (data_backend s) (cache_file s) \<Longrightarrow> load_cache E s = Loaded s"
  by (simp add: load_cache_def)

lemma load_cache_unreadable:
  "backend_exists (data_backend s) (cache_file s) \<Longrightarrow>
   backend_read (data_backend s) (cache_file s) = Inl e \<Longrightarrow>
   load_cache E s = Loaded (s\<lparr>aspect_ratio_bucket_indices := [], instance_images_path := {}\<rparr>)"
  by (simp add: load_cache_def py_get_def py_set_def as_strings_def)

lemma load_cache_undecodable:
  "backend_exists (data_backend s) (cache_file s) \<Longrightarrow>
   backend_read (data_backend s) (cache_file s) = Inr raw \<Longrightarrow>
   json_loads E raw = Inl e \<Longrightarrow>
   load_cache E s = Loaded (s\<lparr>aspect_ratio_bucket_indices := [], instance_images_path := {}\<rparr>)"
  by (simp add: load_cache_def py_get_def py_set_def as_strings_def)

lemma load_cache_not_a_dict:
  "backend_exists (data_backend s) (cache_file s) \<Longrightarrow>
   backend_read (data_backend s) (cache_file s) = Inr raw \<Longrightarrow>
   json_loads E raw = Inr v \<Longrightarrow>
   \<forall>entries. v \<noteq> JObject entries \<Longrightarrow>
   load_cache E s = Raised (AttributeError ''get'')"
  by (cases v) (simp_all add: load_cache_def py_get_def)

text \<open>
  C7.  The claim is that the construction of a manager never fails because of the
  cache.  \<^verbatim>\<open>_load_cache\<close> recovers from a cache file that is absent and from one
  whose bytes cannot be read or decoded (the lemmas above; here an absent file and a
  truncated document give the empty manager), and it loads a well-formed document.  But
  only reading and decoding are inside its \<^verbatim>\<open>try\<close>: the two \<^verbatim>\<open>get\<close> calls and
  \<^verbatim>\<open>set(...)\<close> run after it.  So a cache file that decodes to \<^verbatim>\<open>null\<close> raises
  \<^verbatim>\<open>AttributeError\<close>, and a JSON object whose \<^verbatim>\<open>instance_images_path\<close> is
  \<^verbatim>\<open>null\<close>, or a list holding a list, raises \<^verbatim>\<open>TypeError\<close>, each out of the
  constructor.
\<close>

theorem load_cache_raises_on_decodable_cache:
  "init example_env (example_backend\<lparr>objects := [''cache.json'' \<mapsto> ''null'']\<rparr>) ''cache.json'' 2
     = Raised (AttributeError ''get'')
   \<and> init example_env
        (example_backend
           \<lparr>objects := [''cache.json'' \<mapsto> ''{'' @ quoted ''instance_images_path'' @ '': null}'']\<rparr>)
        ''cache.json'' 2
     = Raised (TypeError ''object is not iterable'')
   \<and> init example_env
        (example_backend
           \<lparr>objects := [''cache.json'' \<mapsto>
              ''{'' @ quoted ''instance_images_path'' @ '': [['' @ quoted ''a.png'' @ '']]}'']\<rparr>)
        ''cache.json'' 2
     = Raised (TypeError ''unhashable type'')
   \<and> init example_env example_backend ''cache.json'' 2 = Loaded (example_manager 2 [] {})
   \<and> init example_env (example_backend\<lparr>objects := [''cache.json'' \<mapsto> ''{'']\<rparr>) ''cache.json'' 2
     = Loaded ((example_manager 2 [] {})
                 \<lparr>data_backend := example_backend\<lparr>objects := [''cache.json'' \<mapsto> ''{'']\<rparr>\<rparr>)
   \<and> init example_env
        (example_backend
           \<lparr>objects := [''cache.json'' \<mapsto>
              ''{'' @ quoted ''aspect_ratio_bucket_indices'' @ '': {'' @ quoted ''1:1''
                @ '': ['' @ quoted ''a.png'' @ '', '' @ quoted ''b.png'' @ '']}, ''
                @ quoted ''instance_images_path'' @ '': ['' @ quoted ''a.png'' @ '', ''
                @ quoted ''b.png'' @ '', '' @ quoted ''c.png'' @ '']}'']\<rparr>)
        ''cache.json'' 2
     = Loaded ((example_manager 2 [(''1:1'', [''a.png'', ''b.png''])] {''a.png'', ''b.png'', ''c.png''})
                 \<lparr>data_backend :=
                    example_backend
                      \<lparr>objects := [''cache.json'' \<mapsto>
                         ''{'' @ quoted ''aspect_ratio_bucket_indices'' @ '': {'' @ quoted ''1:1''
                           @ '': ['' @ quoted ''a.png'' @ '', '' @ quoted ''b.png'' @ '']}, ''
                           @ quoted ''instance_images_path'' @ '': ['' @ quoted ''a.png'' @ '', ''
                           @ quoted ''b.png'' @ '', '' @ quoted ''c.png'' @ '']}'']\<rparr>\<rparr>)"
  by (simp add: init_def load_cache_def backend_exists_def backend_read_def example_backend_def
      example_env_def example_loads_def example_manager_def quoted_def py_get_def py_set_def
      as_strings_def)

section \<open>Computing on an empty index\<close>

lemma set_union_all_fold: "fold (\<lambda>v acc. acc \<union> set v) vs A = A \<union> \<Union> (set ` set vs)"
  by (induction vs arbitrary: A) auto

lemma set_union_all_eq: "set_union_all vs = \<Union> (set ` set vs)"
  by (simp add: set_union_all_def set_union_all_fold)

lemma bucket_worker_no_existing:
  "bucket_worker E b {} = (\<lambda>files. fold (process_for_bucket E b) files [])"
  by (rule ext) (simp add: bucket_worker_def)

text \<open>
  With an empty index and three new files the computation does not fail: the union over
  no lists is the empty set, the files are bucketed and the discovered set is updated.
\<close>

theorem compute_on_empty_index_counterexample:
  "aspect_ratio_bucket_indices (example_manager 1 [] {}) = []
   \<and> discover_new_files (example_manager 1 [] {}) = Inr [''a.png'', ''b.png'', ''c.png'']
   \<and> map_sum id (\<lambda>s. (aspect_ratio_bucket_indices s, instance_images_path s))
        (compute_aspect_ratio_bucket_indices example_env [0, 1, 2] (example_manager 1 [] {}))
       = Inr ([(''1:1'', [''a.png'', ''b.png'']), (''16:9'', [''c.png''])],
              {''a.png'', ''b.png'', ''c.png''})"
  by code_simp

text \<open>
  C1, amended.  When \<^verbatim>\<open>_discover_new_files\<close> returns a non-empty list and the
  bucket index is entirely empty, the union of the existing files is the empty set and
  \<^verbatim>\<open>compute_aspect_ratio_bucket_indices\<close> does not fail: no new file is skipped
  as existing, the partial indices the loop receives are merged into the empty index,
  every new file is added to the discovered set, and the cache is saved.
\<close>

theorem compute_on_empty_index_proceeds:
  "discover_new_files s = Inr new_files \<and> new_files \<noteq> [] \<and> aspect_ratio_bucket_indices s = [] \<longrightarrow>
     set_union_all (map snd (aspect_ratio_bucket_indices s)) = {}
   \<and> (\<exists>s'. compute_aspect_ratio_bucket_indices E sched s = Inr s'
         \<and> s' = save_cache E
                  (s\<lparr>aspect_ratio_bucket_indices :=
                       fold merge_update
                         (received sched
                            (map (\<lambda>files. fold (process_for_bucket E (data_backend s)) files [])
                                 (array_split new_files num_cpus)))
                         [],
                     instance_images_path := instance_images_path s \<union> set new_files\<rparr>)
         \<and> instance_images_path s' = instance_images_path s \<union> set new_files
         \<and> objects (data_backend s') (cache_file s') =
               Some (json_dumps E (cache_document E s')))"
  by (simp add: compute_aspect_ratio_bucket_indices_def set_union_all_def Let_def
      bucket_worker_no_existing save_cache_paths save_cache_cache_file save_cache_written)

theorem compute_on_empty_index_proceeds_witness:
  "discover_new_files (example_manager 2 [] {}) = Inr [''a.png'', ''b.png'', ''c.png'']
   \<and> [''a.png'', ''b.png'', ''c.png''] \<noteq> ([] :: image_ref list)
   \<and> aspect_ratio_bucket_indices (example_manager 2 [] {}) = []
   \<and> (\<exists>s'. compute_aspect_ratio_bucket_indices example_env [0, 1, 2] (example_manager 2 [] {})
               = Inr s'
            \<and> instance_images_path s' = {''a.png'', ''b.png'', ''c.png''})"
proof -
  have h: "discover_new_files (example_manager 2 [] {}) = Inr [''a.png'', ''b.png'', ''c.png'']"
    by code_simp
  have i: "aspect_ratio_bucket_indices (example_manager 2 [] {}) = []"
    by (simp add: example_manager_def)
  have p: "instance_images_path (example_manager 2 [] {}) \<union> set [''a.png'', ''b.png'', ''c.png'']
             = {''a.png'', ''b.png'', ''c.png''}"
    by (simp add: example_manager_def)
  from compute_on_empty_index_proceeds
        [of "example_manager 2 [] {}" "[''a.png'', ''b.png'', ''c.png'']" example_env "[0, 1, 2]"]
      h i
  have "\<exists>s'. compute_aspect_ratio_bucket_indices example_env [0, 1, 2] (example_manager 2 [] {})
               = Inr s'
            \<and> instance_images_path s' =
                instance_images_path (example_manager 2 [] {}) \<union> set [''a.png'', ''b.png'', ''c.png'']"
    by blast
  then show ?thesis
    unfolding p using h i by simp
qed

section \<open>Small images\<close>

text \<open>
  C2.  \<^verbatim>\<open>handle_small_image\<close> calls \<^verbatim>\<open>self.data_backend.remove\<close>, a name the
  backend does not define (its method is \<^verbatim>\<open>delete\<close>), inside a \<^verbatim>\<open>try\<close> that
  swallows every exception.  So the call with \<^verbatim>\<open>delete_unwanted_images=True\<close>
  does what the call with \<^verbatim>\<open>False\<close> does: on a backend that stores
  \<^verbatim>\<open>a.png\<close> the image leaves its bucket and the stored object stays, where the
  backend's \<^verbatim>\<open>delete\<close> would have removed it.
\<close>

theorem handle_small_image_ignores_delete_flag:
  "handle_small_image image_path bucket True s = handle_small_image image_path bucket False s
   \<and> call_procedure ''remove''
        (example_backend\<lparr>objects := [''a.png'' \<mapsto> ''PNG'']\<rparr>) ''a.png''
       = Inl (AttributeError ''remove'')
   \<and> map_sum id (\<lambda>s'. (aspect_ratio_bucket_indices s', objects (data_backend s') ''a.png''))
        (handle_small_image ''a.png'' ''1:1'' True
           ((example_manager 1 [(''1:1'', [''a.png''])] {''a.png''})
              \<lparr>data_backend := example_backend\<lparr>objects := [''a.png'' \<mapsto> ''PNG'']\<rparr>\<rparr>))
       = Inr ([(''1:1'', [])], Some ''PNG'')
   \<and> map_sum id (\<lambda>b. objects b ''a.png'')
        (call_procedure ''delete''
           (example_backend\<lparr>objects := [''a.png'' \<mapsto> ''PNG'']\<rparr>) ''a.png'')
       = Inr None"
  by (simp add: handle_small_image_def call_procedure_def backend_procedures_def
      backend_delete_def remove_image_def example_manager_def)

section \<open>Removing stale entries\<close>

text \<open>
  With batch size 2, bucket 1:1 holds a.png and b.png, and only a.png still exists.
  After the update the bucket has one image left, the embedded save drops it, and
  a.png is in no bucket.
\<close>

theorem update_buckets_eviction_counterexample:
  "''a.png'' \<in> {''a.png''}
   \<and> map_of (aspect_ratio_bucket_indices
               (example_manager 2 [(''1:1'', [''a.png'', ''b.png''])] {''a.png'', ''b.png''})) ''1:1''
       = Some [''a.png'', ''b.png'']
   \<and> aspect_ratio_bucket_indices
        (update_buckets_with_existing_files example_env {''a.png''}
           (example_manager 2 [(''1:1'', [''a.png'', ''b.png''])] {''a.png'', ''b.png''}))
       = []"
  by (simp add: update_buckets_with_existing_files_def save_cache_index enforce_step_def
      example_manager_def)

lemma update_buckets_index:
  "wf_index (aspect_ratio_bucket_indices s) \<Longrightarrow>
   aspect_ratio_bucket_indices (update_buckets_with_existing_files E existing_files s) =
     filter (\<lambda>(bucket, images). \<not> int (length images) < batch_size s)
       (map (\<lambda>(bucket, images). (bucket, filter (\<lambda>img. img \<in> existing_files) images))
          (aspect_ratio_bucket_indices s))"
proof -
  assume wf: "wf_index (aspect_ratio_bucket_indices s)"
  let ?m = "map (\<lambda>(bucket, images). (bucket, filter (\<lambda>img. img \<in> existing_files) images))
          (aspect_ratio_bucket_indices s)"
  have wf': "wf_index ?m"
    using wf unfolding wf_index_def keys_map_values .
  show ?thesis
    by (simp add: update_buckets_with_existing_files_def save_cache_index
        fold_update_map [OF wf] fold_enforce_filter [OF wf'])
qed

text \<open>
  C6, amended.  After \<^verbatim>\<open>update_buckets_with_existing_files\<close>, on an index with
  pairwise distinct keys, every image of every bucket is in \<open>existing_files\<close>.  A
  bucket that keeps at least \<open>batch_size\<close> images present in \<open>existing_files\<close> is
  still there and holds exactly those images, in their order; a bucket that keeps fewer
  is dropped by the embedded save, together with the images it kept.
\<close>

theorem update_buckets_removes_stale_keeps_present:
  "wf_index (aspect_ratio_bucket_indices s) \<Longrightarrow>
     (\<forall>bucket images.
        map_of (aspect_ratio_bucket_indices
                  (update_buckets_with_existing_files E existing_files s)) bucket = Some images
        \<longrightarrow> set images \<subseteq> existing_files)
   \<and> (\<forall>bucket images.
        map_of (aspect_ratio_bucket_indices s) bucket = Some images
        \<and> batch_size s \<le> int (length (filter (\<lambda>img. img \<in> existing_files) images))
        \<longrightarrow> map_of (aspect_ratio_bucket_indices
                      (update_buckets_with_existing_files E existing_files s)) bucket
              = Some (filter (\<lambda>img. img \<in> existing_files) images))
   \<and> (\<forall>bucket images.
        map_of (aspect_ratio_bucket_indices s) bucket = Some images
        \<and> int (length (filter (\<lambda>img. img \<in> existing_files) images)) < batch_size s
        \<longrightarrow> map_of (aspect_ratio_bucket_indices
                      (update_buckets_with_existing_files E existing_files s)) bucket = None)"
proof -
  assume wf: "wf_index (aspect_ratio_bucket_indices s)"
  let ?m = "map (\<lambda>(bucket, images). (bucket, filter (\<lambda>img. img \<in> existing_files) images))
          (aspect_ratio_bucket_indices s)"
  have d: "distinct (map fst ?m)"
    using wf unfolding wf_index_def keys_map_values .
  have look: "map_of (aspect_ratio_bucket_indices
                  (update_buckets_with_existing_files E existing_files s)) bucket =
     (case map_of (aspect_ratio_bucket_indices s) bucket of
        None \<Rightarrow> None
      | Some images \<Rightarrow>
          if int (length (filter (\<lambda>img. img \<in> existing_files) images)) < batch_size s then None
          else Some (filter (\<lambda>img. img \<in> existing_files) images))" for bucket
    unfolding update_buckets_index [OF wf] map_of_filter_distinct [OF d] map_of_map_values
    by (simp split: option.splits)
  show ?thesis
    by (auto simp: look split: option.splits if_splits)
qed

theorem update_buckets_removes_stale_keeps_present_witness:
  "wf_index (aspect_ratio_bucket_indices
      (example_manager 2 [(''1:1'', [''a.png'', ''b.png'', ''d.png'']), (''16:9'', [''c.png'', ''e.png''])]
         {''a.png'', ''b.png'', ''c.png''}))
   \<and> aspect_ratio_bucket_indices
        (update_buckets_with_existing_files example_env {''a.png'', ''b.png'', ''c.png''}
          (example_manager 2 [(''1:1'', [''a.png'', ''b.png'', ''d.png'']), (''16:9'', [''c.png'', ''e.png''])]
             {''a.png'', ''b.png'', ''c.png''}))
       = [(''1:1'', [''a.png'', ''b.png''])]"
proof -
  have wf: "wf_index (aspect_ratio_bucket_indices
      (example_manager 2 [(''1:1'', [''a.png'', ''b.png'', ''d.png'']), (''16:9'', [''c.png'', ''e.png''])]
         {''a.png'', ''b.png'', ''c.png''}))"
    by (simp add: wf_index_def example_manager_def)
  have r: "aspect_ratio_bucket_indices
        (update_buckets_with_existing_files example_env {''a.png'', ''b.png'', ''c.png''}
          (example_manager 2 [(''1:1'', [''a.png'', ''b.png'', ''d.png'']), (''16:9'', [''c.png'', ''e.png''])]
             {''a.png'', ''b.png'', ''c.png''}))
       = [(''1:1'', [''a.png'', ''b.png''])]"
    by (simp add: update_buckets_with_existing_files_def save_cache_index enforce_step_def
      example_manager_def)
  show ?thesis
    using wf r update_buckets_removes_stale_keeps_present
      [OF wf, of example_env "{''a.png'', ''b.png'', ''c.png''}"]
    by simp
qed

section \<open>Well-formed indices\<close>

lemma wf_setdefault_extend: "wf_index d \<Longrightarrow> wf_index (setdefault_extend k v d)"
  by (simp add: wf_index_def setdefault_extend_def distinct_update)

lemma wf_merge_update: "wf_index d \<Longrightarrow> wf_index (merge_update upd d)"
  unfolding merge_update_def
  by (induction upd arbitrary: d) (auto simp: wf_setdefault_extend)

lemma wf_fold_merge_update: "wf_index d \<Longrightarrow> wf_index (fold merge_update us d)"
  by (induction us arbitrary: d) (auto simp: wf_merge_update)

lemma wf_filter: "wf_index d \<Longrightarrow> wf_index (filter P d)"
  by (simp add: wf_index_def distinct_map_filter)

lemma save_cache_eq:
  "wf_index (aspect_ratio_bucket_indices s) \<Longrightarrow>
   save_cache E s =
     s\<lparr>aspect_ratio_bucket_indices :=
         filter (\<lambda>(k, v). \<not> int (length v) < batch_size s) (aspect_ratio_bucket_indices s),
       data_backend :=
         backend_write (data_backend s) (cache_file s)
           (json_dumps E
              \<lparr>doc_indices =
                 filter (\<lambda>(k, v). \<not> int (length v) < batch_size s) (aspect_ratio_bucket_indices s),
               doc_paths = set_iter E (instance_images_path s)\<rparr>)\<rparr>"
  by (simp add: save_cache_def enforce_min_bucket_size_def Let_def fold_enforce_filter
      cache_document_def)

lemma wf_save_cache:
  "wf_index (aspect_ratio_bucket_indices s) \<Longrightarrow>
   wf_index (aspect_ratio_bucket_indices (save_cache E s))"
  by (simp add: save_cache_eq wf_filter)

lemma save_cache_listing: "listing (data_backend (save_cache E s)) = listing (data_backend s)"
  by (simp add: save_cache_def enforce_min_bucket_size_def Let_def backend_write_def)

lemma compute_cases:
  assumes "compute_aspect_ratio_bucket_indices E sched s = Inr s'"
  obtains (none) "discover_new_files s = Inr []" "s' = s"
  | (some) new_files merged where "discover_new_files s = Inr new_files" "new_files \<noteq> []"
      "merged = fold merge_update
                 (received sched
                    (map (bucket_worker E (data_backend s)
                            (set_union_all (map snd (aspect_ratio_bucket_indices s))))
                         (array_split new_files num_cpus)))
                 (aspect_ratio_bucket_indices s)"
      "s' = save_cache E (s\<lparr>aspect_ratio_bucket_indices := merged,
                             instance_images_path := instance_images_path s \<union> set new_files\<rparr>)"
  using assms
  by (auto simp: compute_aspect_ratio_bucket_indices_def Let_def split: sum.splits if_splits)

lemma wf_compute:
  assumes "wf_index (aspect_ratio_bucket_indices s)"
    and "compute_aspect_ratio_bucket_indices E sched s = Inr s'"
  shows "wf_index (aspect_ratio_bucket_indices s')"
  using assms(2)
proof (cases rule: compute_cases)
  case none
  then show ?thesis using assms(1) by simp
next
  case (some new_files merged)
  have "wf_index merged"
    unfolding some(3) by (rule wf_fold_merge_update [OF assms(1)])
  then show ?thesis
    unfolding some(4) by (intro wf_save_cache) simp
qed

lemma compute_frame:
  assumes "compute_aspect_ratio_bucket_indices E sched s = Inr s'"
  shows "listing (data_backend s') = listing (data_backend s)"
    and "cache_file s' = cache_file s"
    and "batch_size s' = batch_size s"
  using assms
  by (cases rule: compute_cases; simp add: save_cache_listing save_cache_cache_file save_cache_batch_size)+

lemma compute_discovers_all:
  assumes "compute_aspect_ratio_bucket_indices E sched s = Inr s'"
    and "list_files (data_backend s) = Inr all_image_files_data"
  shows "set (all_image_files all_image_files_data) \<subseteq> instance_images_path s'"
  using assms(1)
proof (cases rule: compute_cases)
  case none
  then show ?thesis
    using assms(2) by (auto simp: discover_new_files_def filter_empty_conv)
next
  case (some new_files merged)
  then show ?thesis
    using assms(2) by (auto simp: discover_new_files_def save_cache_paths)
qed

section \<open>Refreshing twice\<close>

lemma compute_returns_without_new_files:
  "discover_new_files s = Inr [] \<Longrightarrow> compute_aspect_ratio_bucket_indices E sched s = Inr s"
  by (simp add: compute_aspect_ratio_bucket_indices_def)

lemma wf_map_values: "wf_index d \<Longrightarrow> wf_index (map (\<lambda>(k, v). (k, g v)) d)"
  unfolding wf_index_def keys_map_values .

lemma update_buckets_eq:
  assumes wf: "wf_index (aspect_ratio_bucket_indices s)"
  shows "update_buckets_with_existing_files E existing_files s =
     s\<lparr>aspect_ratio_bucket_indices :=
         refreshed_index (batch_size s) existing_files (aspect_ratio_bucket_indices s),
       data_backend :=
         backend_write (data_backend s) (cache_file s)
           (json_dumps E
              \<lparr>doc_indices =
                 refreshed_index (batch_size s) existing_files (aspect_ratio_bucket_indices s),
               doc_paths = set_iter E (instance_images_path s)\<rparr>)\<rparr>"
proof -
  let ?m = "map (\<lambda>(k, v). (k, filter (\<lambda>img. img \<in> existing_files) v))
              (aspect_ratio_bucket_indices s)"
  have wf': "wf_index (aspect_ratio_bucket_indices (s\<lparr>aspect_ratio_bucket_indices := ?m\<rparr>))"
    using wf_map_values [OF wf] by simp
  have "update_buckets_with_existing_files E existing_files s
          = save_cache E (s\<lparr>aspect_ratio_bucket_indices := ?m\<rparr>)"
    by (simp add: update_buckets_with_existing_files_def fold_update_map [OF wf])
  also have "\<dots> = s\<lparr>aspect_ratio_bucket_indices :=
         refreshed_index (batch_size s) existing_files (aspect_ratio_bucket_indices s),
       data_backend :=
         backend_write (data_backend s) (cache_file s)
           (json_dumps E
              \<lparr>doc_indices =
                 refreshed_index (batch_size s) existing_files (aspect_ratio_bucket_indices s),
               doc_paths = set_iter E (instance_images_path s)\<rparr>)\<rparr>"
    unfolding save_cache_eq [OF wf'] by (simp add: refreshed_index_def)
  finally show ?thesis .
qed

lemma refreshed_index_idem:
  "refreshed_index bs ex (refreshed_index bs ex idx) = refreshed_index bs ex idx"
  unfolding refreshed_index_def
  by (induction idx) auto

lemma wf_refreshed_index: "wf_index idx \<Longrightarrow> wf_index (refreshed_index bs ex idx)"
  unfolding refreshed_index_def by (intro wf_filter wf_map_values)

lemma backend_write_twice:
  "backend_write (backend_write b k d) k d = backend_write b k d"
  by (simp add: backend_write_def)

lemma backend_write_listing: "listing (backend_write b k d) = listing b"
  by (simp add: backend_write_def)

lemma backend_write_objects: "objects (backend_write b k d) k = Some d"
  by (simp add: backend_write_def)

lemma refresh_cases:
  assumes "refresh_buckets E sched s = Inr s1"
  obtains s_mid all_image_files_data where
    "compute_aspect_ratio_bucket_indices E sched s = Inr s_mid"
    "list_files (data_backend s_mid) = Inr all_image_files_data"
    "s1 = update_buckets_with_existing_files E (set (all_image_files all_image_files_data)) s_mid"
  using assms by (auto simp: refresh_buckets_def split: sum.splits)

text \<open>
  C9.  Let a first \<^verbatim>\<open>refresh_buckets\<close> return, and let the backend list the same
  files when the second call starts (whatever else changed in it).  Then the second
  call returns, it leaves the bucket index and the discovered set as the first call
  left them, and the cache document it writes is the very document the first call
  wrote.  On the backend the first call left behind, the second call changes nothing
  at all.
\<close>

theorem refresh_twice_changes_nothing:
  assumes wf: "wf_index (aspect_ratio_bucket_indices s)"
    and first: "refresh_buckets E sched s = Inr s1"
    and same_listing: "listing b = listing (data_backend s1)"
  shows "\<exists>s2. refresh_buckets E sched' (s1\<lparr>data_backend := b\<rparr>) = Inr s2
          \<and> aspect_ratio_bucket_indices s2 = aspect_ratio_bucket_indices s1
          \<and> instance_images_path s2 = instance_images_path s1
          \<and> objects (data_backend s2) (cache_file s2) = objects (data_backend s1) (cache_file s1)
          \<and> objects (data_backend s1) (cache_file s1) = Some (json_dumps E (cache_document E s1))
          \<and> (b = data_backend s1 \<longrightarrow> s2 = s1)"
  using first
proof (cases rule: refresh_cases)
  case (1 s_mid data)
  let ?ex = "set (all_image_files data)"
  let ?I = "refreshed_index (batch_size s_mid) ?ex (aspect_ratio_bucket_indices s_mid)"
  let ?doc = "json_dumps E \<lparr>doc_indices = ?I, doc_paths = set_iter E (instance_images_path s_mid)\<rparr>"
  have wf_mid: "wf_index (aspect_ratio_bucket_indices s_mid)"
    by (rule wf_compute [OF wf 1(1)])
  have s1: "s1 = s_mid\<lparr>aspect_ratio_bucket_indices := ?I,
                       data_backend := backend_write (data_backend s_mid) (cache_file s_mid) ?doc\<rparr>"
    unfolding 1(3) by (rule update_buckets_eq [OF wf_mid])
  have listing_mid: "listing (data_backend s_mid) = listing (data_backend s)"
    by (rule compute_frame(1) [OF 1(1)])
  have all_known: "?ex \<subseteq> instance_images_path s_mid"
    using 1(2) listing_mid by (intro compute_discovers_all [OF 1(1)]) (simp add: list_files_def)
  let ?s1' = "s1\<lparr>data_backend := b\<rparr>"
  have list_b: "list_files b = Inr data"
    using same_listing 1(2) by (simp add: s1 list_files_def backend_write_listing)
  have "discover_new_files ?s1' = Inr []"
    using all_known by (auto simp: discover_new_files_def list_b s1 filter_empty_conv)
  then have c2: "compute_aspect_ratio_bucket_indices E sched' ?s1' = Inr ?s1'"
    by (rule compute_returns_without_new_files)
  have wf1: "wf_index (aspect_ratio_bucket_indices ?s1')"
    by (simp add: s1 wf_refreshed_index [OF wf_mid])
  let ?s2 = "update_buckets_with_existing_files E ?ex ?s1'"
  have r2: "refresh_buckets E sched' ?s1' = Inr ?s2"
    by (simp add: refresh_buckets_def c2 list_b)
  have s2: "?s2 = s1\<lparr>data_backend := backend_write b (cache_file s_mid) ?doc\<rparr>"
    unfolding update_buckets_eq [OF wf1] by (simp add: s1 refreshed_index_idem)
  have doc1: "objects (data_backend s1) (cache_file s1) = Some (json_dumps E (cache_document E s1))"
    by (simp add: s1 backend_write_objects cache_document_def)
  show ?thesis
  proof (intro exI [of _ ?s2] conjI impI)
    show "refresh_buckets E sched' ?s1' = Inr ?s2" by (rule r2)
    show "aspect_ratio_bucket_indices ?s2 = aspect_ratio_bucket_indices s1"
      unfolding s2 by simp
    show "instance_images_path ?s2 = instance_images_path s1"
      unfolding s2 by simp
    show "objects (data_backend ?s2) (cache_file ?s2) = objects (data_backend s1) (cache_file s1)"
      unfolding s2 by (simp add: s1 backend_write_objects)
    show "objects (data_backend s1) (cache_file s1) = Some (json_dumps E (cache_document E s1))"
      by (rule doc1)
    show "?s2 = s1" if "b = data_backend s1"
      unfolding s2 using that by (simp add: s1 backend_write_twice)
  qed
qed

theorem refresh_twice_changes_nothing_witness:
  "wf_index (aspect_ratio_bucket_indices (example_manager 2 [] {}))
   \<and> map_sum id (\<lambda>s. (aspect_ratio_bucket_indices s, instance_images_path s))
        (refresh_buckets example_env [0, 1, 2] (example_manager 2 [] {}))
       = Inr ([(''1:1'', [''a.png'', ''b.png''])], {''a.png'', ''b.png'', ''c.png''})
   \<and> refresh_buckets example_env [2, 0, 1]
        (projr (refresh_buckets example_env [0, 1, 2] (example_manager 2 [] {})))
       = refresh_buckets example_env [0, 1, 2] (example_manager 2 [] {})"
proof -
  let ?s = "example_manager 2 [] {}"
  let ?r = "refresh_buckets example_env [0, 1, 2] ?s"
  have wf: "wf_index (aspect_ratio_bucket_indices ?s)"
    by (simp add: wf_index_def example_manager_def)
  have v: "map_sum id (\<lambda>s. (aspect_ratio_bucket_indices s, instance_images_path s)) ?r
       = Inr ([(''1:1'', [''a.png'', ''b.png''])], {''a.png'', ''b.png'', ''c.png''})"
    by code_simp
  then have "\<not> isl ?r"
    by (cases ?r) simp_all
  then have first: "?r = Inr (projr ?r)"
    by simp
  from refresh_twice_changes_nothing [OF wf first refl, of "[2, 0, 1]"]
  have "refresh_buckets example_env [2, 0, 1] (projr ?r) = Inr (projr ?r)"
    by auto
  with first wf v show ?thesis
    by simp
qed

section \<open>No image in two buckets\<close>


subsection \<open>References of an index as a multiset\<close>

lemma all_refs_Nil: "all_refs [] = []"
  by (simp add: all_refs_def)

lemma all_refs_Cons: "all_refs (p # d) = snd p @ all_refs d"
  by (simp add: all_refs_def)

lemma all_refs_setdefault_extend:
  "mset (all_refs (setdefault_extend k v d)) = mset (all_refs d) + mset v"
  unfolding setdefault_extend_def all_refs_def
  by (induction d) auto

lemma all_refs_merge_update:
  "mset (all_refs (merge_update upd d)) = mset (all_refs d) + mset (all_refs upd)"
  unfolding merge_update_def
  by (induction upd arbitrary: d)
     (auto simp: all_refs_setdefault_extend all_refs_Nil all_refs_Cons)

lemma all_refs_fold_merge_update:
  "mset (all_refs (fold merge_update us d)) = mset (all_refs d) + mset (concat (map all_refs us))"
  by (induction us arbitrary: d) (auto simp: all_refs_merge_update)

lemma all_refs_process_for_bucket:
  "mset (all_refs (process_for_bucket E b file idx)) =
     mset (all_refs idx) + (if bucket_of E b file = None then {#} else {#file#})"
  by (auto simp: process_for_bucket_def all_refs_setdefault_extend)

lemma all_refs_worker_fold:
  "mset (all_refs (fold (\<lambda>file local. if file \<notin> ex then process_for_bucket E b file local else local)
                     files acc)) =
     mset (all_refs acc) + mset (filter (\<lambda>f. f \<notin> ex \<and> bucket_of E b f \<noteq> None) files)"
  by (induction files arbitrary: acc) (auto simp: all_refs_process_for_bucket)

lemma all_refs_bucket_worker:
  "mset (all_refs (bucket_worker E b ex files)) =
     mset (filter (\<lambda>f. f \<notin> ex \<and> bucket_of E b f \<noteq> None) files)"
  unfolding bucket_worker_def all_refs_worker_fold by (simp add: all_refs_Nil)

subsection \<open>Sections of a split\<close>

lemma concat_split_sections: "concat (split_sections ary ms) = take (sum_list ms) ary"
  by (induction ms arbitrary: ary) (auto simp: take_add)

lemma concat_array_split: "0 < n \<Longrightarrow> concat (array_split ary n) = ary"
proof -
  assume n: "0 < n"
  have "length ary mod n * (length ary div n + 1) + (n - length ary mod n) * (length ary div n)
          = length ary"
  proof -
    have "length ary mod n \<le> n" using n by (simp add: less_imp_le)
    then have "length ary mod n * (length ary div n + 1) + (n - length ary mod n) * (length ary div n)
          = n * (length ary div n) + length ary mod n"
      by (simp add: algebra_simps diff_mult_distrib)
    then show ?thesis by simp
  qed
  then show ?thesis
    by (simp add: array_split_def Let_def concat_split_sections sum_list_replicate)
qed

subsection \<open>What the loop receives\<close>


lemma mset_received:
  assumes "distinct sched"
  shows "mset (received sched results) \<subseteq># mset results"
proof -
  let ?is = "filter (\<lambda>i. i < length results) sched"
  have d: "distinct ?is" using assms by simp
  have s: "set ?is \<subseteq> set [0..<length results]" by auto
  have "mset ?is = mset_set (set ?is)"
    by (rule mset_set_set [OF d, symmetric])
  also have "\<dots> \<subseteq># mset_set (set [0..<length results])"
    using s by (intro subset_imp_msubset_mset_set) auto
  also have "\<dots> = mset [0..<length results]"
    by (rule mset_set_set) simp
  finally have "image_mset ((!) results) (mset ?is)
                  \<subseteq># image_mset ((!) results) (mset [0..<length results])"
    by (rule image_mset_subseteq_mono)
  moreover have "map ((!) results) [0..<length results] = results"
    by (rule map_nth)
  ultimately show ?thesis
    unfolding received_def mset_map [symmetric] by simp
qed

lemma mset_concat_map_mono:
  assumes "mset xs \<subseteq># mset ys"
  shows "mset (concat (map f xs)) \<subseteq># mset (concat (map f ys))"
proof -
  have "mset (concat (map f zs)) = (\<Sum>z \<in># mset zs. mset (f z))" for zs
    by (induction zs) auto
  moreover obtain r where "mset ys = mset xs + r"
    using assms by (auto simp: subset_mset.le_iff_add)
  ultimately show ?thesis by simp
qed

subsection \<open>Each operation keeps the index free of duplicates\<close>


lemma distinct_mset_subseteq:
  "mset xs \<subseteq># mset ys \<Longrightarrow> distinct ys \<Longrightarrow> distinct xs"
proof -
  assume sub: "mset xs \<subseteq># mset ys" and d: "distinct ys"
  have "count (mset xs) a \<le> 1" for a
  proof -
    have "count (mset xs) a \<le> count (mset ys) a"
      using sub by (rule mset_subset_eq_count)
    also have "\<dots> \<le> 1"
      using d by (simp add: distinct_count_atmost_1)
    finally show ?thesis .
  qed
  then show "distinct xs"
    unfolding distinct_count_atmost_1 by (metis One_nat_def count_mset_0_iff le_antisym not_less_eq_eq not_gr_zero le_zero_eq)
qed

lemma all_refs_filter: "mset (all_refs (filter Q d)) \<subseteq># mset (all_refs d)"
  by (induction d) (auto simp: all_refs_Nil all_refs_Cons intro: subset_mset.add_increasing)

lemma all_refs_map_values:
  "mset (all_refs (map (\<lambda>(k, v). (k, filter P v)) d)) \<subseteq># mset (all_refs d)"
proof (induction d)
  case Nil
  then show ?case by (simp add: all_refs_Nil)
next
  case (Cons p d)
  have "mset (filter P (snd p)) \<subseteq># mset (snd p)"
    by simp
  with Cons show ?case
    by (cases p) (auto simp: all_refs_Cons intro: subset_mset.add_mono)
qed

lemma all_refs_refreshed_index:
  "mset (all_refs (refreshed_index bs ex d)) \<subseteq># mset (all_refs d)"
  unfolding refreshed_index_def
  by (rule subset_mset.order_trans [OF all_refs_filter all_refs_map_values])

lemma all_refs_update:
  "map_of d k = Some v \<Longrightarrow>
   mset (all_refs (AList.update k v' d)) + mset v = mset (all_refs d) + mset v'"
  by (induction d) (auto simp: all_refs_Cons)

lemma set_all_refs: "set_union_all (map snd d) = set (all_refs d)"
  by (simp add: set_union_all_eq all_refs_def)

lemma all_refs_results:
  "mset (concat (map all_refs (map (bucket_worker E b ex) shards))) =
     mset (filter (\<lambda>f. f \<notin> ex \<and> bucket_of E b f \<noteq> None) (concat shards))"
  by (induction shards) (auto simp: all_refs_bucket_worker)

lemma no_duplication_merged:
  assumes d: "distinct (all_refs idx)" and n: "distinct new_files" and v: "distinct sched"
  shows "distinct (all_refs
           (fold merge_update
              (received sched
                 (map (bucket_worker E b (set_union_all (map snd idx)))
                      (array_split new_files num_cpus)))
              idx))"
proof -
  let ?ex = "set_union_all (map snd idx)"
  let ?P = "\<lambda>f. f \<notin> ?ex \<and> bucket_of E b f \<noteq> None"
  let ?results = "map (bucket_worker E b ?ex) (array_split new_files num_cpus)"
  have "mset (concat (map all_refs (received sched ?results)))
          \<subseteq># mset (concat (map all_refs ?results))"
    by (rule mset_concat_map_mono [OF mset_received [OF v]])
  also have "\<dots> = mset (filter ?P new_files)"
    unfolding all_refs_results by (simp add: concat_array_split num_cpus_def)
  finally have "mset (all_refs (fold merge_update (received sched ?results) idx))
                  \<subseteq># mset (all_refs idx @ filter ?P new_files)"
    by (simp add: all_refs_fold_merge_update)
  moreover have "distinct (all_refs idx @ filter ?P new_files)"
    using d n by (auto simp: set_all_refs)
  ultimately show ?thesis
    by (rule distinct_mset_subseteq)
qed

lemma no_duplication_save_cache:
  assumes "wf_index (aspect_ratio_bucket_indices s)"
    and "no_duplication (aspect_ratio_bucket_indices s)"
  shows "no_duplication (aspect_ratio_bucket_indices (save_cache E s))"
  using assms(2) unfolding no_duplication_def save_cache_eq [OF assms(1)]
  by (simp add: distinct_mset_subseteq [OF all_refs_filter])

lemma no_duplication_update_buckets:
  assumes "wf_index (aspect_ratio_bucket_indices s)"
    and "no_duplication (aspect_ratio_bucket_indices s)"
  shows "no_duplication (aspect_ratio_bucket_indices
           (update_buckets_with_existing_files E existing_files s))"
  using assms(2) unfolding no_duplication_def update_buckets_eq [OF assms(1)]
  by (simp add: distinct_mset_subseteq [OF all_refs_refreshed_index])

lemma wf_update_buckets:
  assumes "wf_index (aspect_ratio_bucket_indices s)"
  shows "wf_index (aspect_ratio_bucket_indices
           (update_buckets_with_existing_files E existing_files s))"
  unfolding update_buckets_eq [OF assms] by (simp add: wf_refreshed_index [OF assms])

lemma no_duplication_compute:
  assumes wf: "wf_index (aspect_ratio_bucket_indices s)"
    and nd: "no_duplication (aspect_ratio_bucket_indices s)"
    and v: "valid_schedule sched" and l: "listing_distinct s"
    and c: "compute_aspect_ratio_bucket_indices E sched s = Inr s'"
  shows "no_duplication (aspect_ratio_bucket_indices s')"
  using c
proof (cases rule: compute_cases)
  case none
  then show ?thesis using nd by simp
next
  case (some new_files merged)
  have "distinct new_files"
    using some(1) l by (auto simp: discover_new_files_def listing_distinct_def split: sum.splits)
  then have "no_duplication merged"
    unfolding some(3) no_duplication_def
    using nd v by (intro no_duplication_merged) (simp_all add: no_duplication_def valid_schedule_def)
  moreover have "wf_index merged"
    unfolding some(3) by (rule wf_fold_merge_update [OF wf])
  ultimately show ?thesis
    unfolding some(4) by (intro no_duplication_save_cache) simp_all
qed


lemma wf_remove_image:
  "wf_index (aspect_ratio_bucket_indices s) \<Longrightarrow> remove_image image_path bucket s = Inr s' \<Longrightarrow>
   wf_index (aspect_ratio_bucket_indices s')"
  by (auto simp: remove_image_def wf_index_def distinct_update split: option.splits if_splits)

lemma no_duplication_remove_image:
  assumes nd: "no_duplication (aspect_ratio_bucket_indices s)"
    and r: "remove_image image_path bucket s = Inr s'"
  shows "no_duplication (aspect_ratio_bucket_indices s')"
proof -
  from r obtain images where
    present: "map_of (aspect_ratio_bucket_indices s) bucket = Some images"
    by (auto simp: remove_image_def split: option.splits)
  have s': "s' = s\<lparr>aspect_ratio_bucket_indices :=
               AList.update bucket (remove1 image_path images) (aspect_ratio_bucket_indices s)\<rparr>"
    using r by (simp add: remove_image_result [OF present])
  have "mset (remove1 image_path images) \<subseteq># mset images"
    by simp
  then obtain rest where rest: "mset images = mset (remove1 image_path images) + rest"
    by (auto simp: subset_mset.le_iff_add)
  have "mset (all_refs (aspect_ratio_bucket_indices s')) + mset images
          = mset (all_refs (aspect_ratio_bucket_indices s)) + mset (remove1 image_path images)"
    unfolding s' using all_refs_update [OF present] by simp
  then have "mset (all_refs (aspect_ratio_bucket_indices s')) + rest
          = mset (all_refs (aspect_ratio_bucket_indices s))"
    unfolding rest by (simp add: ac_simps)
  then have "mset (all_refs (aspect_ratio_bucket_indices s'))
               \<subseteq># mset (all_refs (aspect_ratio_bucket_indices s))"
    by (metis mset_subset_eq_add_left)
  then show ?thesis
    using nd unfolding no_duplication_def by (rule distinct_mset_subseteq)
qed

lemma not_in_all_refs_after_remove:
  assumes wf: "wf_index d" and nd: "distinct (all_refs d)"
    and present: "map_of d bucket = Some images"
    and adm: "\<forall>(k, v) \<in> set d. k \<noteq> bucket \<longrightarrow> image_path \<notin> set v"
  shows "image_path \<notin> set (all_refs (AList.update bucket (remove1 image_path images) d))"
proof
  let ?d' = "AList.update bucket (remove1 image_path images) d"
  assume "image_path \<in> set (all_refs ?d')"
  then obtain k v where kv: "(k, v) \<in> set ?d'" "image_path \<in> set v"
    by (auto simp: all_refs_def)
  have dk: "distinct (map fst d)" using wf by (simp add: wf_index_def)
  have "map_of ?d' k = Some v"
    using kv(1) dk by (intro map_of_is_SomeI) (simp_all add: distinct_update)
  then have look: "((map_of d)(bucket \<mapsto> remove1 image_path images)) k = Some v"
    by (simp add: update_conv')
  show False
  proof (cases "k = bucket")
    case True
    then have v: "v = remove1 image_path images" using look by simp
    have "(bucket, images) \<in> set d" using present by (rule map_of_SomeD)
    then have "set images \<subseteq> set (all_refs d)" by (auto simp: all_refs_def)
    moreover have "distinct images"
      using nd \<open>(bucket, images) \<in> set d\<close> unfolding all_refs_def
      by (auto simp: distinct_concat_iff)
    ultimately show False using kv(2) v by simp
  next
    case False
    then have "map_of d k = Some v" using look by simp
    then have "(k, v) \<in> set d" by (rule map_of_SomeD)
    then show False using adm False kv(2) by auto
  qed
qed

lemma wf_handle_incorrect_bucket:
  "wf_index (aspect_ratio_bucket_indices s) \<Longrightarrow>
   handle_incorrect_bucket image_path bucket actual_bucket s = Inr s' \<Longrightarrow>
   wf_index (aspect_ratio_bucket_indices s')"
  by (auto simp: handle_incorrect_bucket_def remove_image_def wf_index_def distinct_update
      split: option.splits if_splits sum.splits)

lemma no_duplication_handle_incorrect_bucket:
  assumes wf: "wf_index (aspect_ratio_bucket_indices s)"
    and nd: "no_duplication (aspect_ratio_bucket_indices s)"
    and adm: "\<forall>(k, v) \<in> set (aspect_ratio_bucket_indices s). k \<noteq> bucket \<longrightarrow> image_path \<notin> set v"
    and h: "handle_incorrect_bucket image_path bucket actual_bucket s = Inr s'"
  shows "no_duplication (aspect_ratio_bucket_indices s')"
proof -
  from h obtain images where
    present: "map_of (aspect_ratio_bucket_indices s) bucket = Some images"
    by (auto simp: handle_incorrect_bucket_def remove_image_def split: option.splits sum.splits)
  let ?d1 = "AList.update bucket (remove1 image_path images) (aspect_ratio_bucket_indices s)"
  have s': "aspect_ratio_bucket_indices s' = setdefault_extend actual_bucket [image_path] ?d1"
    using h unfolding handle_incorrect_bucket_result [OF present] by auto
  have r: "remove_image image_path bucket s = Inr (s\<lparr>aspect_ratio_bucket_indices := ?d1\<rparr>)"
    by (rule remove_image_result [OF present])
  have d1: "distinct (all_refs ?d1)"
    using no_duplication_remove_image [OF nd r] by (simp add: no_duplication_def)
  have fresh: "image_path \<notin> set (all_refs ?d1)"
    using nd by (intro not_in_all_refs_after_remove [OF wf _ present adm])
      (simp add: no_duplication_def)
  have "mset (all_refs (aspect_ratio_bucket_indices s')) = mset (image_path # all_refs ?d1)"
    unfolding s' by (simp add: all_refs_setdefault_extend)
  moreover have "distinct (image_path # all_refs ?d1)"
    using d1 fresh by simp
  ultimately show ?thesis
    unfolding no_duplication_def by (metis mset_eq_imp_distinct_iff)
qed

lemma handle_small_image_index:
  "\<exists>s1. aspect_ratio_bucket_indices s1 = aspect_ratio_bucket_indices s
      \<and> handle_small_image image_path bucket delete_unwanted_images s
          = remove_image image_path bucket s1"
proof -
  let ?s1 = "if delete_unwanted_images
             then (case call_procedure ''remove'' (data_backend s) image_path of
                     Inl e \<Rightarrow> s
                   | Inr b \<Rightarrow> s\<lparr>data_backend := b\<rparr>)
             else s"
  have "aspect_ratio_bucket_indices ?s1 = aspect_ratio_bucket_indices s"
    by (simp split: sum.splits)
  moreover have "handle_small_image image_path bucket delete_unwanted_images s
                   = remove_image image_path bucket ?s1"
    by (simp add: handle_small_image_def Let_def)
  ultimately show ?thesis by blast
qed

lemma entry_refs_subset: "(k, v) \<in> set idx \<Longrightarrow> set v \<subseteq> set (all_refs idx)"
  by (auto simp: all_refs_def)

lemma distinct_entries_disjoint:
  "distinct (all_refs idx) \<Longrightarrow> (k, v) \<in> set idx \<Longrightarrow> (k', v') \<in> set idx \<Longrightarrow>
   (k, v) \<noteq> (k', v') \<Longrightarrow> set v \<inter> set v' = {}"
proof (induction idx)
  case Nil
  then show ?case by simp
next
  case (Cons p idx)
  from Cons.prems(1) have d: "distinct (all_refs idx)"
    and disj: "set (snd p) \<inter> set (all_refs idx) = {}"
    by (simp_all add: all_refs_Cons)
  consider "(k, v) = p" "(k', v') \<in> set idx" | "(k', v') = p" "(k, v) \<in> set idx"
    | "(k, v) \<in> set idx" "(k', v') \<in> set idx"
    using Cons.prems by auto
  then show ?case
  proof cases
    case 1
    then show ?thesis using disj entry_refs_subset [of k' v' idx] by (auto simp del: all_refs_def)
  next
    case 2
    then show ?thesis using disj entry_refs_subset [of k v idx] by (auto simp del: all_refs_def)
  next
    case 3
    then show ?thesis using Cons.IH [OF d] Cons.prems(4) by blast
  qed
qed

lemma no_duplication_imp_no_cross:
  "no_duplication idx \<Longrightarrow> no_cross_bucket_duplication idx"
  unfolding no_duplication_def no_cross_bucket_duplication_def
  using distinct_entries_disjoint [of idx] by fastforce

lemma invariant_step:
  assumes wf: "wf_index (aspect_ratio_bucket_indices s)"
    and nd: "no_duplication (aspect_ratio_bucket_indices s)"
    and adm: "admissible s operation"
    and step: "apply_operation E operation s = Inr s'"
  shows "wf_index (aspect_ratio_bucket_indices s') \<and> no_duplication (aspect_ratio_bucket_indices s')"
proof (cases operation)
  case (Compute sched)
  then show ?thesis
    using wf nd adm step
    by (auto intro: wf_compute no_duplication_compute)
next
  case (Refresh sched)
  with step obtain s_mid data where
    c: "compute_aspect_ratio_bucket_indices E sched s = Inr s_mid"
    and s': "s' = update_buckets_with_existing_files E (set (all_image_files data)) s_mid"
    by (auto elim: refresh_cases)
  have wf_mid: "wf_index (aspect_ratio_bucket_indices s_mid)"
    by (rule wf_compute [OF wf c])
  have nd_mid: "no_duplication (aspect_ratio_bucket_indices s_mid)"
    using adm Refresh by (intro no_duplication_compute [OF wf nd _ _ c]) simp_all
  show ?thesis
    unfolding s' using wf_update_buckets [OF wf_mid] no_duplication_update_buckets [OF wf_mid nd_mid]
    by simp
next
  case (UpdateExisting existing_files)
  then show ?thesis
    using step wf_update_buckets [OF wf] no_duplication_update_buckets [OF wf nd] by auto
next
  case SaveCache
  then show ?thesis
    using step wf_save_cache [OF wf] no_duplication_save_cache [OF wf nd] by auto
next
  case (RemoveImage image_path bucket)
  then show ?thesis
    using step wf nd by (auto intro: wf_remove_image no_duplication_remove_image)
next
  case (HandleIncorrectBucket image_path bucket actual_bucket)
  then show ?thesis
    using step wf nd adm
    by (auto intro: wf_handle_incorrect_bucket no_duplication_handle_incorrect_bucket)
next
  case (HandleSmallImage image_path bucket delete_unwanted_images)
  obtain s1 where s1: "aspect_ratio_bucket_indices s1 = aspect_ratio_bucket_indices s"
    and h: "handle_small_image image_path bucket delete_unwanted_images s
              = remove_image image_path bucket s1"
    using handle_small_image_index by blast
  have r: "remove_image image_path bucket s1 = Inr s'"
    using step HandleSmallImage h by simp
  show ?thesis
    using wf_remove_image [OF _ r] no_duplication_remove_image [OF _ r] wf nd s1 by simp
next
  case (BackendChange b)
  then show ?thesis using step wf nd by auto
qed

text \<open>
  Two runs from the empty index that end with an image in two buckets.  In the first,
  \<^verbatim>\<open>handle_incorrect_bucket\<close> is called for a.png with a current bucket, 16:9, that
  a.png is not in: nothing is removed and a.png is appended to 16:9 while it stays in
  1:1.  In the second, the backend lists x.png in two directories, both entries are
  bucketed into 1:1, and moving x.png out of 1:1 removes one occurrence only.
\<close>

theorem cross_bucket_duplication_counterexample:
  "aspect_ratio_bucket_indices (example_manager 1 [] {}) = []
   \<and> map_sum id aspect_ratio_bucket_indices
        (run example_env
           [Compute [0, 1, 2], HandleIncorrectBucket ''a.png'' ''16:9'' ''16:9'']
           (example_manager 1 [] {}))
       = Inr [(''1:1'', [''a.png'', ''b.png'']), (''16:9'', [''c.png'', ''a.png''])]
   \<and> \<not> no_cross_bucket_duplication
          [(''1:1'', [''a.png'', ''b.png'']), (''16:9'', [''c.png'', ''a.png''])]
   \<and> map_sum id aspect_ratio_bucket_indices
        (run example_env
           [Compute [0, 1], HandleIncorrectBucket ''x.png'' ''1:1'' ''4:3'']
           ((example_manager 1 [] {})
              \<lparr>data_backend :=
                 example_backend
                   \<lparr>listing := Inr [(''d1'', [], [''x.png'']), (''d2'', [], [''x.png''])]\<rparr>\<rparr>))
       = Inr [(''1:1'', [''x.png'']), (''4:3'', [''x.png''])]
   \<and> \<not> no_cross_bucket_duplication [(''1:1'', [''x.png'']), (''4:3'', [''x.png''])]"
  by code_simp

text \<open>
  C10, amended.  Start from an index in which no image reference occurs twice (the
  empty index, or a loaded index that is so).  Through every sequence of operations
  (compute and merge, refresh, removal of stale entries, save with eviction,
  \<^verbatim>\<open>remove_image\<close>, \<^verbatim>\<open>handle_incorrect_bucket\<close>, \<^verbatim>\<open>handle_small_image\<close>, and
  changes of the backend in between) in which the backend lists no file twice when
  files are discovered, the aggregation loop receives no worker's partial index twice,
  and \<^verbatim>\<open>handle_incorrect_bucket\<close> is called only for an image that is in no bucket
  other than the one named as its current bucket, every state reached has no image
  reference in more than one bucket's list; indeed no image reference occurs twice in
  the index at all.
\<close>

theorem no_cross_bucket_duplication_preserved:
  "wf_index (aspect_ratio_bucket_indices s) \<Longrightarrow>
   no_duplication (aspect_ratio_bucket_indices s) \<Longrightarrow>
   admissible_run E operations s \<Longrightarrow>
   run E operations s = Inr s' \<Longrightarrow>
   no_cross_bucket_duplication (aspect_ratio_bucket_indices s')
   \<and> no_duplication (aspect_ratio_bucket_indices s')
   \<and> wf_index (aspect_ratio_bucket_indices s')"
proof (induction operations arbitrary: s)
  case Nil
  then show ?case by (simp add: no_duplication_imp_no_cross)
next
  case (Cons operation operations)
  from Cons.prems(4) obtain s1 where
    step: "apply_operation E operation s = Inr s1" and rest: "run E operations s1 = Inr s'"
    by (auto split: sum.splits)
  from Cons.prems(3) step have adm: "admissible s operation" and adm_rest: "admissible_run E operations s1"
    by simp_all
  from invariant_step [OF Cons.prems(1,2) adm step]
  have "wf_index (aspect_ratio_bucket_indices s1)" "no_duplication (aspect_ratio_bucket_indices s1)"
    by simp_all
  then show ?case
    using adm_rest rest by (rule Cons.IH)
qed

theorem no_cross_bucket_duplication_preserved_witness:
  "wf_index (aspect_ratio_bucket_indices (example_manager 1 [] {}))
   \<and> no_duplication (aspect_ratio_bucket_indices (example_manager 1 [] {}))
   \<and> admissible_run example_env
        [Compute [2, 0, 1], HandleIncorrectBucket ''b.png'' ''1:1'' ''4:3'',
         HandleSmallImage ''a.png'' ''1:1'' True, Refresh [0]]
        (example_manager 1 [] {})
   \<and> map_sum id aspect_ratio_bucket_indices
        (run example_env
           [Compute [2, 0, 1], HandleIncorrectBucket ''b.png'' ''1:1'' ''4:3'',
            HandleSmallImage ''a.png'' ''1:1'' True, Refresh [0]]
           (example_manager 1 [] {}))
       = Inr [(''16:9'', [''c.png'']), (''4:3'', [''b.png''])]
   \<and> no_cross_bucket_duplication [(''16:9'', [''c.png'']), (''4:3'', [''b.png''])]"
proof -
  let ?s = "example_manager 1 [] {}"
  let ?ops = "[Compute [2, 0, 1], HandleIncorrectBucket ''b.png'' ''1:1'' ''4:3'',
               HandleSmallImage ''a.png'' ''1:1'' True, Refresh [0]]"
  let ?r = "run example_env ?ops ?s"
  have wf: "wf_index (aspect_ratio_bucket_indices ?s)"
    by (simp add: wf_index_def example_manager_def)
  have nd: "no_duplication (aspect_ratio_bucket_indices ?s)"
    by (simp add: no_duplication_def all_refs_def example_manager_def)
  have adm: "admissible_run example_env ?ops ?s"
    by code_simp
  have v: "map_sum id aspect_ratio_bucket_indices ?r
             = Inr [(''16:9'', [''c.png'']), (''4:3'', [''b.png''])]"
    by code_simp
  then have "\<not> isl ?r"
    by (cases ?r) simp_all
  then have r: "?r = Inr (projr ?r)"
    by simp
  have i: "aspect_ratio_bucket_indices (projr ?r) = [(''16:9'', [''c.png'']), (''4:3'', [''b.png''])]"
    using v by (subst (asm) r) simp
  from no_cross_bucket_duplication_preserved [OF wf nd adm r]
  have "no_cross_bucket_duplication (aspect_ratio_bucket_indices (projr ?r))"
    by simp
  then show ?thesis
    using wf nd adm v unfolding i by simp
qed

end
